theory Spec2Isabelle
  imports Main "HOL-Library.Word"
begin

section \<open>JavaScript values and the object store\<close>

text \<open>
  A JavaScript string is a sequence of UTF-16 code units. String literals of the source
  are written with \<open>str\<close>, which maps each character of an ASCII literal to its code unit.
\<close>

type_synonym jsstring = "16 word list"

definition str :: "string \<Rightarrow> jsstring" where
  "str s = map of_char s"

text \<open>
  Objects are held by reference. A reference is an address of the object store; the values
  that flow through the store and its actions are \<open>undefined\<close>, numbers (the indices and
  user identifiers of the application are integers), strings and references.
\<close>

type_synonym ref = nat

datatype val = Undefined | Num int | Str jsstring | Ref ref

text \<open>
  \<open>type Todo = { title: string, user?: number, isDone: boolean }\<close>. An absent \<open>user\<close>
  reads as \<open>undefined\<close>. The field is a \<open>val\<close> because \<open>UserSelect.handleChange\<close> works
  on \<open>any[]\<close> and assigns the string \<open>e.target.value\<close> to it.
\<close>

record todo =
  title :: jsstring
  user :: val
  isDone :: bool

text \<open>
  The three kinds of object the application allocates: a Todo, an array, and the state object
  \<open>{ todos: ... }\<close> of the \<open>list\<close> slice.
\<close>

datatype obj = TodoObj todo | ArrayObj "val list" | StateObj val

text \<open>
  The object store is the list of all objects allocated so far; a reference is a position in
  it. Allocation appends, so it never changes an object that already exists.
\<close>

type_synonym heap = "obj list"

definition alloc :: "heap \<Rightarrow> obj \<Rightarrow> heap \<times> ref" where
  "alloc h ob = (h @ [ob], length h)"

definition lookup :: "heap \<Rightarrow> ref \<Rightarrow> obj option" where
  "lookup h r = (if r < length h then Some (h ! r) else None)"

text \<open>\<open>state.todos\<close>: the property read yields \<open>undefined\<close> on anything but a state object.\<close>

definition state_todos :: "heap \<Rightarrow> ref \<Rightarrow> val" where
  "state_todos h s = (case lookup h s of Some (StateObj v) \<Rightarrow> v | _ \<Rightarrow> Undefined)"

text \<open>
  The array a value refers to, with its address. Calling an array method (\<open>push\<close>,
  \<open>filter\<close>, \<open>map\<close>) on any other value raises a \<open>TypeError\<close>.
\<close>

definition array_at :: "heap \<Rightarrow> val \<Rightarrow> (ref \<times> val list) option" where
  "array_at h v =
     (case v of
        Ref a \<Rightarrow> (case lookup h a of Some (ArrayObj xs) \<Rightarrow> Some (a, xs) | _ \<Rightarrow> None)
      | _ \<Rightarrow> None)"

definition todo_at :: "heap \<Rightarrow> val \<Rightarrow> todo option" where
  "todo_at h v =
     (case v of
        Ref r \<Rightarrow> (case lookup h r of Some (TodoObj t) \<Rightarrow> Some t | _ \<Rightarrow> None)
      | _ \<Rightarrow> None)"

text \<open>
  The content of a \<open>Todo[]\<close>: the Todo records its elements refer to, in order. \<open>None\<close> when
  the value is not an array of references to Todo objects.
\<close>

fun todos_of :: "heap \<Rightarrow> val list \<Rightarrow> todo list option" where
  "todos_of h [] = Some []"
| "todos_of h (v # vs) =
     (case todo_at h v of
        None \<Rightarrow> None
      | Some t \<Rightarrow> (case todos_of h vs of None \<Rightarrow> None | Some ts \<Rightarrow> Some (t # ts)))"

definition todos_view :: "heap \<Rightarrow> val \<Rightarrow> todo list option" where
  "todos_view h v = (case array_at h v of None \<Rightarrow> None | Some (a, xs) \<Rightarrow> todos_of h xs)"

datatype error = TypeError


section \<open>The store: \<open>src/store/index.ts\<close>\<close>

text \<open>An action \<open>{ type, payload }\<close>; both are untyped (\<open>any\<close>) in the reducer.\<close>

record action =
  atype :: jsstring
  payload :: val

text \<open>
  The reducer of the \<open>list\<close> slice.
  \<^item> The default parameter \<open>state = {todos: []}\<close> allocates a fresh array and a fresh state
    object when the state is \<open>undefined\<close> (\<open>None\<close>).
  \<^item> \<open>ADD_TODO\<close>: \<open>newState = state\<close> is the same reference; \<open>push\<close> writes into the array
    that \<open>state.todos\<close> refers to and the same state reference is returned.
  \<^item> \<open>REMOVE_TODO\<close>: a new state object whose \<open>todos\<close> is the new array made by \<open>filter\<close>;
    \<open>index !== action.payload\<close> is strict inequality of the number \<open>index\<close> and the payload.
  \<^item> \<open>CHANGE_TODOS\<close>: a new state object whose \<open>todos\<close> is the payload.
  \<^item> \<open>default\<close>: the state reference it was given.
\<close>

definition reducer :: "heap \<Rightarrow> ref option \<Rightarrow> action \<Rightarrow> error + heap \<times> ref" where
  "reducer h0 st act =
     (let (h, s) =
            (case st of
               Some s0 \<Rightarrow> (h0, s0)
             | None \<Rightarrow> (let (h1, a) = alloc h0 (ArrayObj []) in alloc h1 (StateObj (Ref a))))
      in if atype act = str ''ADD_TODO'' then
           (case array_at h (state_todos h s) of
              None \<Rightarrow> Inl TypeError
            | Some (a, xs) \<Rightarrow> Inr (h[a := ArrayObj (xs @ [payload act])], s))
         else if atype act = str ''REMOVE_TODO'' then
           (case array_at h (state_todos h s) of
              None \<Rightarrow> Inl TypeError
            | Some (a, xs) \<Rightarrow>
                (let (h1, a') =
                       alloc h (ArrayObj (map fst (filter (\<lambda>(t, index). Num (int index) \<noteq> payload act)
                                                      (zip xs [0..<length xs]))));
                     (h2, s') = alloc h1 (StateObj (Ref a'))
                 in Inr (h2, s')))
         else if atype act = str ''CHANGE_TODOS'' then
           (let (h1, s') = alloc h (StateObj (payload act)) in Inr (h1, s'))
         else Inr (h, s))"

text \<open>
  \<open>store.dispatch\<close>: the store holds the current state reference of the slice and replaces it
  by what the reducer returns.
\<close>

definition dispatch :: "heap \<times> ref \<Rightarrow> action \<Rightarrow> error + heap \<times> ref" where
  "dispatch st act = reducer (fst st) (Some (snd st)) act"


section \<open>The list view: \<open>src/components/MainApp/index.tsx\<close>\<close>

text \<open>The dispatchers that \<open>connect\<close> wires into the component.\<close>

definition addTodo :: "heap \<times> ref \<Rightarrow> val \<Rightarrow> error + heap \<times> ref" where
  "addTodo st t = dispatch st \<lparr>atype = str ''ADD_TODO'', payload = t\<rparr>"

definition changeTodo :: "heap \<times> ref \<Rightarrow> val \<Rightarrow> error + heap \<times> ref" where
  "changeTodo st todos = dispatch st \<lparr>atype = str ''CHANGE_TODOS'', payload = todos\<rparr>"

definition removeTodo :: "heap \<times> ref \<Rightarrow> int \<Rightarrow> error + heap \<times> ref" where
  "removeTodo st index = dispatch st \<lparr>atype = str ''REMOVE_TODOS'', payload = Num index\<rparr>"


text \<open>
  \<open>Array.prototype.map\<close> with a callback \<open>(t, index) => ...\<close> that may allocate: the elements
  are visited in order with their index, and the results are collected. The callback returns
  \<open>None\<close> on an element outside its declared parameter type.
\<close>

fun array_map ::
  "(heap \<Rightarrow> val \<Rightarrow> nat \<Rightarrow> (heap \<times> val) option) \<Rightarrow> heap \<Rightarrow> val list \<Rightarrow> nat \<Rightarrow> (heap \<times> val list) option"
where
  "array_map f h [] index = Some (h, [])"
| "array_map f h (v # vs) index =
     (case f h v index of
        None \<Rightarrow> None
      | Some (h1, r) \<Rightarrow>
          (case array_map f h1 vs (Suc index) of
             None \<Rightarrow> None
           | Some (h2, rs) \<Rightarrow> Some (h2, r # rs)))"

text \<open>
  The callback of the checkbox's \<open>onChange\<close> handler:
  \<open>const res = { ...t }; if (index == idx) { res.isDone = !t.isDone; } return res;\<close>
  The spread allocates a new object with the fields of \<open>t\<close>; the assignment writes to that
  new object. \<open>t\<close> is typed \<open>Todo\<close>.
\<close>

definition toggle_callback :: "int \<Rightarrow> heap \<Rightarrow> val \<Rightarrow> nat \<Rightarrow> (heap \<times> val) option" where
  "toggle_callback idx h v index =
     (case todo_at h v of
        None \<Rightarrow> None
      | Some t \<Rightarrow>
          (let (h1, res) = alloc h (TodoObj t);
               h2 = (if int index = idx then h1[res := TodoObj (t\<lparr>isDone := \<not> isDone t\<rparr>)] else h1)
           in Some (h2, Ref res)))"

text \<open>
  The \<open>onChange\<close> handler of the checkbox rendered for position \<open>idx\<close>. \<open>this.props.todos\<close>
  is the array selected from the store (\<open>state.list.todos\<close>); \<open>map\<close> builds the changed
  array, which \<open>changeTodo\<close> dispatches. The outer \<open>None\<close> marks an array that is not a
  \<open>Todo[]\<close>; calling \<open>map\<close> on a value that is no array raises a \<open>TypeError\<close>.
\<close>

definition toggle_onChange :: "heap \<times> ref \<Rightarrow> int \<Rightarrow> (error + heap \<times> ref) option" where
  "toggle_onChange st idx =
     (let (h, s) = st in
      case array_at h (state_todos h s) of
        None \<Rightarrow> Some (Inl TypeError)
      | Some (a, xs) \<Rightarrow>
          (case array_map (toggle_callback idx) h xs 0 of
             None \<Rightarrow> None
           | Some (h1, rs) \<Rightarrow>
               (let (h2, changedTodos) = alloc h1 (ArrayObj rs)
                in Some (changeTodo (h2, s) (Ref changedTodos)))))"

text \<open>
  The derived flag computed in \<open>render\<close>: \<open>window.allTodosIsDone = true\<close>, then every
  element, in order, overwrites the flag with \<open>false\<close> when it is not done and with \<open>true\<close>
  otherwise.
\<close>

definition allTodosIsDone :: "todo list \<Rightarrow> bool" where
  "allTodosIsDone todos = fold (\<lambda>t flag. if \<not> isDone t then False else True) todos True"


section \<open>The assignment widget: \<open>src/components/UserSelect/index.tsx\<close>\<close>

text \<open>
  The callback of \<open>handleChange\<close>:
  \<open>const res = { ...t }; if (index == idx) { res.user = e.target.value; } return res;\<close>
  where \<open>e.target.value\<close> is the string value of the selected option.
\<close>

definition assign_callback :: "int \<Rightarrow> jsstring \<Rightarrow> heap \<Rightarrow> val \<Rightarrow> nat \<Rightarrow> (heap \<times> val) option" where
  "assign_callback idx target_value h v index =
     (case todo_at h v of
        None \<Rightarrow> None
      | Some t \<Rightarrow>
          (let (h1, res) = alloc h (TodoObj t);
               h2 = (if int index = idx then h1[res := TodoObj (t\<lparr>user := Str target_value\<rparr>)] else h1)
           in Some (h2, Ref res)))"

text \<open>
  \<open>handleChange\<close> of the select rendered for position \<open>idx\<close>: \<open>todos\<close> is selected from the
  store, the changed array is dispatched under the tag \<open>CHANGE_TODO\<close>.
\<close>

definition UserSelect_handleChange ::
  "heap \<times> ref \<Rightarrow> int \<Rightarrow> jsstring \<Rightarrow> (error + heap \<times> ref) option"
where
  "UserSelect_handleChange st idx target_value =
     (let (h, s) = st in
      case array_at h (state_todos h s) of
        None \<Rightarrow> Some (Inl TypeError)
      | Some (a, xs) \<Rightarrow>
          (case array_map (assign_callback idx target_value) h xs 0 of
             None \<Rightarrow> None
           | Some (h1, rs) \<Rightarrow>
               (let (h2, changedTodos) = alloc h1 (ArrayObj rs)
                in Some (dispatch (h2, s) \<lparr>atype = str ''CHANGE_TODO'', payload = Ref changedTodos\<rparr>))))"


section \<open>The input widget: \<open>InputNewTodo\<close>\<close>

text \<open>
  \<open>String.prototype.trim\<close> removes the leading and trailing code units that are WhiteSpace
  or LineTerminator in ECMAScript.
\<close>

definition isWhiteSpace :: "16 word \<Rightarrow> bool" where
  "isWhiteSpace c \<longleftrightarrow>
     c \<in> {0x0009, 0x000A, 0x000B, 0x000C, 0x000D, 0x0020, 0x00A0, 0x1680,
          0x2000, 0x2001, 0x2002, 0x2003, 0x2004, 0x2005, 0x2006, 0x2007, 0x2008, 0x2009,
          0x200A, 0x2028, 0x2029, 0x202F, 0x205F, 0x3000, 0xFEFF}"

definition trim :: "jsstring \<Rightarrow> jsstring" where
  "trim s = rev (dropWhile isWhiteSpace (rev (dropWhile isWhiteSpace s)))"

text \<open>
  An instance of the component together with the parent state it renders:
  \<open>props_todoTitle\<close> is \<open>this.props.todoTitle\<close>, which is \<open>this.state.todoTitle\<close> of MainApp
  and the text shown in the input; \<open>state_value\<close> is \<open>this.state.value\<close> of InputNewTodo,
  \<open>None\<close> while \<open>this.state\<close> is \<open>null\<close> (the class has neither a constructor nor a state
  initialiser).
\<close>

record InputNewTodo =
  props_todoTitle :: jsstring
  state_value :: "jsstring option"

definition mounted :: InputNewTodo where
  "mounted = \<lparr>props_todoTitle = [], state_value = None\<rparr>"

text \<open>
  \<open>componentDidUpdate(prevProps)\<close>:
  \<open>if (this.props.todoTitle !== prevProps.todoTitle) this.setState({value: this.props.todoTitle})\<close>.
\<close>

definition componentDidUpdate :: "InputNewTodo \<Rightarrow> jsstring \<Rightarrow> InputNewTodo" where
  "componentDidUpdate c prev_todoTitle =
     (if props_todoTitle c \<noteq> prev_todoTitle then c\<lparr>state_value := Some (props_todoTitle c)\<rparr>
      else c)"

text \<open>
  \<open>MainApp.handleTodoTitle\<close> is the \<open>onChange\<close> property: it sets the parent's \<open>todoTitle\<close>;
  the component is rendered again with the new property and \<open>componentDidUpdate\<close> runs with
  the previous one.
\<close>

definition handleTodoTitle :: "InputNewTodo \<Rightarrow> jsstring \<Rightarrow> InputNewTodo" where
  "handleTodoTitle c todoTitle =
     componentDidUpdate (c\<lparr>props_todoTitle := todoTitle\<rparr>) (props_todoTitle c)"

text \<open>\<open>handleChange\<close>: \<open>this.props.onChange(e.target.value)\<close>.\<close>

definition InputNewTodo_handleChange :: "InputNewTodo \<Rightarrow> jsstring \<Rightarrow> InputNewTodo" where
  "InputNewTodo_handleChange c target_value = handleTodoTitle c target_value"

text \<open>
  What a key press does: \<open>thrown\<close> is the exception that left the handler, if any;
  \<open>submitted\<close> lists the objects passed to \<open>this.props.onSubmit\<close>, in order; \<open>component\<close>
  is the instance after the calls of \<open>this.props.onChange\<close>.
\<close>

record keydown =
  thrown :: "error option"
  submitted :: "todo list"
  component :: InputNewTodo

text \<open>
  \<open>handleKeyDown\<close>. Any key but Enter (\<open>keyCode\<close> 13) returns at once. Reading
  \<open>this.state.value\<close> while \<open>this.state\<close> is \<open>null\<close> raises a \<open>TypeError\<close> before anything
  else is done. A string is truthy when it is not empty.
\<close>

definition handleKeyDown :: "InputNewTodo \<Rightarrow> int \<Rightarrow> keydown" where
  "handleKeyDown c keyCode =
     (if keyCode \<noteq> 13 then \<lparr>thrown = None, submitted = [], component = c\<rparr>
      else
        (case state_value c of
           None \<Rightarrow> \<lparr>thrown = Some TypeError, submitted = [], component = c\<rparr>
         | Some v \<Rightarrow>
             (let val = trim v in
              if val \<noteq> [] then
                \<lparr>thrown = None,
                 submitted = [\<lparr>title = v, user = Undefined, isDone = False\<rparr>],
                 component = handleTodoTitle c []\<rparr>
              else \<lparr>thrown = None, submitted = [], component = c\<rparr>)))"

text \<open>
  \<open>MainApp.handleSubmitTodo\<close> is the \<open>onSubmit\<close> property: the object literal built by
  \<open>handleKeyDown\<close> is a new object, and \<open>addTodo\<close> dispatches a reference to it.
\<close>

definition handleSubmitTodo :: "heap \<times> ref \<Rightarrow> todo \<Rightarrow> error + heap \<times> ref" where
  "handleSubmitTodo st t = (let (h1, r) = alloc (fst st) (TodoObj t) in addTodo (h1, snd st) (Ref r))"

text \<open>
  The two sources of the draft agree in every state the component can be in: either nothing
  has been typed since mounting, or \<open>this.state.value\<close> is the text shown.
\<close>

definition synced :: "InputNewTodo \<Rightarrow> bool" where
  "synced c \<longleftrightarrow>
     (case state_value c of None \<Rightarrow> props_todoTitle c = [] | Some v \<Rightarrow> v = props_todoTitle c)"


section \<open>The object store under allocation\<close>

text \<open>Allocation extends the store: what could be read before reads the same afterwards.\<close>

lemma lookup_append: "lookup h r = Some ob \<Longrightarrow> lookup (h @ h') r = Some ob"
  by (auto simp: lookup_def nth_append split: if_splits)

lemma lookup_fresh: "lookup (h @ ob # h') (length h) = Some ob"
  by (simp add: lookup_def)

lemma todo_at_append: "todo_at h v = Some t \<Longrightarrow> todo_at (h @ h') v = Some t"
  by (auto simp: todo_at_def lookup_append split: val.splits option.splits obj.splits)

lemma array_at_append: "array_at h v = Some p \<Longrightarrow> array_at (h @ h') v = Some p"
  by (auto simp: array_at_def lookup_append split: val.splits option.splits obj.splits)

lemma todos_of_append: "todos_of h vs = Some ts \<Longrightarrow> todos_of (h @ h') vs = Some ts"
  by (induction vs arbitrary: ts) (auto simp: todo_at_append split: option.splits)

lemma todos_view_append: "todos_view h v = Some ts \<Longrightarrow> todos_view (h @ h') v = Some ts"
  by (auto simp: todos_view_def array_at_append todos_of_append split: option.splits)

lemma state_todos_append: "lookup h s = Some ob \<Longrightarrow> state_todos (h @ h') s = state_todos h s"
  by (simp add: state_todos_def lookup_append)

lemma todos_of_length: "todos_of h vs = Some ts \<Longrightarrow> length ts = length vs"
  by (induction vs arbitrary: ts) (auto split: option.splits)

lemma todos_of_fresh:
  "todos_of (h @ map TodoObj us @ h') (map Ref [length h..<length h + length us]) = Some us"
proof (induction us arbitrary: h)
  case Nil
  show ?case by simp
next
  case (Cons u us)
  have "todos_of ((h @ [TodoObj u]) @ map TodoObj us @ h')
          (map Ref [length (h @ [TodoObj u])..<length (h @ [TodoObj u]) + length us]) = Some us"
    by (rule Cons.IH)
  then show ?case
    by (simp add: upt_conv_Cons todo_at_def lookup_fresh del: upt_Suc)
qed

lemma toggle_callback_copy:
  "todo_at h v = Some t \<Longrightarrow>
   toggle_callback idx h v index
     = Some (h @ [TodoObj (if int index = idx then t\<lparr>isDone := \<not> isDone t\<rparr> else t)], Ref (length h))"
  by (simp add: toggle_callback_def alloc_def)

lemma assign_callback_copy:
  "todo_at h v = Some t \<Longrightarrow>
   assign_callback idx x h v index
     = Some (h @ [TodoObj (if int index = idx then t\<lparr>user := Str x\<rparr> else t)], Ref (length h))"
  by (simp add: assign_callback_def alloc_def)

lemma array_map_copies:
  assumes f: "\<And>h v index t. todo_at h v = Some t \<Longrightarrow>
                f h v index = Some (h @ [TodoObj (g index t)], Ref (length h))"
    and "todos_of h vs = Some ts"
  shows "array_map f h vs k
           = Some (h @ map TodoObj (map2 g [k..<k + length ts] ts),
                   map Ref [length h..<length h + length ts])"
  using assms(2)
proof (induction vs arbitrary: h k ts)
  case Nil
  then show ?case by simp
next
  case (Cons v vs)
  from Cons.prems obtain t ts' where t: "todo_at h v = Some t"
    and ts': "todos_of h vs = Some ts'" and ts: "ts = t # ts'"
    by (auto split: option.splits)
  have step: "f h v k = Some (h @ [TodoObj (g k t)], Ref (length h))"
    by (rule f [OF t])
  have "todos_of (h @ [TodoObj (g k t)]) vs = Some ts'"
    by (rule todos_of_append [OF ts'])
  from Cons.IH [OF this, of "Suc k"]
  have rest: "array_map f (h @ [TodoObj (g k t)]) vs (Suc k)
      = Some (h @ TodoObj (g k t) # map TodoObj (map2 g [Suc k..<Suc k + length ts'] ts'),
              map Ref [Suc (length h)..<Suc (length h) + length ts'])"
    by (simp del: upt_Suc)
  show ?case
    by (simp add: step rest ts upt_conv_Cons del: upt_Suc)
qed

lemma map2_update_at:
  "map2 (\<lambda>index t. if int index = idx then f t else t) [0..<length ts] ts
     = (if 0 \<le> idx \<and> idx < int (length ts) then ts[nat idx := f (ts ! nat idx)] else ts)"
  by (rule nth_equalityI) (auto simp: nth_list_update)


lemma view_cases:
  assumes "todos_view h (state_todos h s) = Some L"
  obtains a xs where "state_todos h s = Ref a" "a < length h" "s < length h"
    "array_at h (state_todos h s) = Some (a, xs)" "todos_of h xs = Some L" "length xs = length L"
  using assms
  by (auto simp: todos_view_def array_at_def state_todos_def lookup_def todos_of_length
      split: option.splits val.splits obj.splits if_splits)

lemma state_todos_fresh: "state_todos (h @ StateObj p # h') (length h) = p"
  by (simp add: state_todos_def lookup_fresh)

lemma array_at_fresh: "array_at (h @ ArrayObj xs # h') (Ref (length h)) = Some (length h, xs)"
  by (simp add: array_at_def lookup_fresh)

lemma view_of_copies:
  "todos_view (h @ map TodoObj us @ [ArrayObj (map Ref [length h..<length h + length us]), StateObj (Ref (length h + length us))])
      (Ref (length h + length us)) = Some us"
proof -
  have "array_at ((h @ map TodoObj us) @ ArrayObj (map Ref [length h..<length h + length us]) # [StateObj (Ref (length h + length us))])
          (Ref (length (h @ map TodoObj us))) = Some (length (h @ map TodoObj us), map Ref [length h..<length h + length us])"
    by (rule array_at_fresh)
  then show ?thesis
    by (simp add: todos_view_def todos_of_fresh)
qed

lemma todos_of_iff: "todos_of h xs = Some L \<longleftrightarrow> map (todo_at h) xs = map Some L"
proof (induction xs arbitrary: L)
  case Nil
  show ?case by auto
next
  case (Cons v vs)
  show ?case
    by (cases L) (auto simp: Cons.IH [symmetric] split: option.splits)
qed

lemma todos_of_nths: "todos_of h xs = Some L \<Longrightarrow> todos_of h (nths xs A) = Some (nths L A)"
  by (simp add: todos_of_iff nths_map [symmetric])

lemma nths_all: "(\<And>i. i < length xs \<Longrightarrow> i \<in> A) \<Longrightarrow> nths xs A = xs"
proof -
  assume a: "\<And>i. i < length xs \<Longrightarrow> i \<in> A"
  have "nths xs A = nths xs {..<length xs}"
    unfolding nths_def
    by (rule arg_cong [where f = "map fst"], rule filter_cong) (auto dest: set_zip_rightD simp: a)
  then show ?thesis by simp
qed

lemma map2_no_update:
  "idx < 0 \<or> int (length ts) \<le> idx \<Longrightarrow>
   map2 (\<lambda>index t. if int index = idx then f t else t) [0..<length ts] ts = ts"
  by (auto simp: map2_update_at)


section \<open>Properties of the reducer\<close>

lemma tags_distinct:
  "str ''REMOVE_TODOS'' \<noteq> str ''ADD_TODO''"
  "str ''REMOVE_TODOS'' \<noteq> str ''REMOVE_TODO''"
  "str ''REMOVE_TODOS'' \<noteq> str ''CHANGE_TODOS''"
  "str ''CHANGE_TODO'' \<noteq> str ''ADD_TODO''"
  "str ''CHANGE_TODO'' \<noteq> str ''REMOVE_TODO''"
  "str ''CHANGE_TODO'' \<noteq> str ''CHANGE_TODOS''"
  "str ''ADD_TODO'' \<noteq> str ''REMOVE_TODO''"
  "str ''ADD_TODO'' \<noteq> str ''CHANGE_TODOS''"
  "str ''REMOVE_TODO'' \<noteq> str ''CHANGE_TODOS''"
  by (simp_all add: str_def)

lemma reducer_default:
  assumes "atype act \<noteq> str ''ADD_TODO''"
    and "atype act \<noteq> str ''REMOVE_TODO''"
    and "atype act \<noteq> str ''CHANGE_TODOS''"
  shows "reducer h (Some s) act = Inr (h, s)"
  using assms by (simp add: reducer_def)

lemma reducer_CHANGE_TODOS:
  "reducer h (Some s) \<lparr>atype = str ''CHANGE_TODOS'', payload = p\<rparr> = Inr (h @ [StateObj p], length h)"
  by (simp add: reducer_def alloc_def tags_distinct [symmetric])

lemma reducer_ADD_TODO:
  assumes "array_at h (state_todos h s) = Some (a, xs)"
  shows "reducer h (Some s) \<lparr>atype = str ''ADD_TODO'', payload = p\<rparr> = Inr (h[a := ArrayObj (xs @ [p])], s)"
  using assms by (simp add: reducer_def)

lemma filter_index_nths:
  "map fst (filter (\<lambda>(t, index). Num (int index) \<noteq> p) (zip xs [0..<length xs]))
     = nths xs {index. Num (int index) \<noteq> p}"
  by (simp add: nths_def case_prod_unfold)

lemma reducer_REMOVE_TODO:
  assumes "array_at h (state_todos h s) = Some (a, xs)"
  shows "reducer h (Some s) \<lparr>atype = str ''REMOVE_TODO'', payload = p\<rparr>
    = Inr (h @ [ArrayObj (nths xs {index. Num (int index) \<noteq> p}), StateObj (Ref (length h))],
           Suc (length h))"
  using assms
  by (simp add: reducer_def alloc_def tags_distinct [symmetric] filter_index_nths)

lemma reducer_REMOVE_TODO_view:
  assumes "todos_view h (state_todos h s) = Some L"
  shows "\<exists>h' s'. reducer h (Some s) \<lparr>atype = str ''REMOVE_TODO'', payload = p\<rparr> = Inr (h', s')
      \<and> take (length h) h' = h
      \<and> todos_view h' (state_todos h' s') = Some (nths L {index. Num (int index) \<noteq> p})"
proof -
  from assms obtain a xs where ar: "array_at h (state_todos h s) = Some (a, xs)"
    and xs: "todos_of h xs = Some L"
    by (rule view_cases)
  let ?ys = "nths xs {index. Num (int index) \<noteq> p}"
  let ?h' = "h @ [ArrayObj ?ys, StateObj (Ref (length h))]"
  have "todos_of ?h' ?ys = Some (nths L {index. Num (int index) \<noteq> p})"
    by (rule todos_of_append [OF todos_of_nths [OF xs]])
  moreover have "state_todos ?h' (Suc (length h)) = Ref (length h)"
    using state_todos_fresh [of "h @ [ArrayObj ?ys]" "Ref (length h)" "[]"] by simp
  moreover have "array_at ?h' (Ref (length h)) = Some (length h, ?ys)"
    by (rule array_at_fresh)
  ultimately have "todos_view ?h' (state_todos ?h' (Suc (length h))) = Some (nths L {index. Num (int index) \<noteq> p})"
    by (simp add: todos_view_def)
  with reducer_REMOVE_TODO [OF ar, of p] show ?thesis
    by simp
qed

lemma reducer_REMOVE_TODO_twice:
  assumes "todos_view h (state_todos h s) = Some L"
  shows "\<exists>h1 s1 h2 s2.
      reducer h (Some s) \<lparr>atype = str ''REMOVE_TODO'', payload = p\<rparr> = Inr (h1, s1)
    \<and> reducer h1 (Some s1) \<lparr>atype = str ''REMOVE_TODO'', payload = p\<rparr> = Inr (h2, s2)
    \<and> todos_view h2 (state_todos h2 s2)
        = Some (nths (nths L {index. Num (int index) \<noteq> p}) {index. Num (int index) \<noteq> p})"
proof -
  from reducer_REMOVE_TODO_view [OF assms, of p] obtain h1 s1 where
    one: "reducer h (Some s) \<lparr>atype = str ''REMOVE_TODO'', payload = p\<rparr> = Inr (h1, s1)"
    and v1: "todos_view h1 (state_todos h1 s1) = Some (nths L {index. Num (int index) \<noteq> p})"
    by blast
  from reducer_REMOVE_TODO_view [OF v1, of p] obtain h2 s2 where
    "reducer h1 (Some s1) \<lparr>atype = str ''REMOVE_TODO'', payload = p\<rparr> = Inr (h2, s2)"
    "todos_view h2 (state_todos h2 s2)
        = Some (nths (nths L {index. Num (int index) \<noteq> p}) {index. Num (int index) \<noteq> p})"
    by blast
  with one show ?thesis by blast
qed

text \<open>
  C1. \<open>ADD_TODO\<close> should return a new list, leaving the list held before as it was.
  Evaluated on the state \<open>{todos: []}\<close> and a Todo: the reducer returns the state reference
  it was given, whose \<open>todos\<close> is the same array reference as before, and that array, which
  read as the empty list, now reads as the list with the Todo appended.
\<close>

theorem ADD_TODO_pushes_in_place:
  "reducer [ArrayObj [], StateObj (Ref 0),
            TodoObj \<lparr>title = str ''Buy milk'', user = Undefined, isDone = False\<rparr>]
     (Some 1) \<lparr>atype = str ''ADD_TODO'', payload = Ref 2\<rparr>
     = Inr ([ArrayObj [Ref 2], StateObj (Ref 0),
             TodoObj \<lparr>title = str ''Buy milk'', user = Undefined, isDone = False\<rparr>], 1)
   \<and> state_todos [ArrayObj [], StateObj (Ref 0),
                  TodoObj \<lparr>title = str ''Buy milk'', user = Undefined, isDone = False\<rparr>] 1 = Ref 0
   \<and> state_todos [ArrayObj [Ref 2], StateObj (Ref 0),
                  TodoObj \<lparr>title = str ''Buy milk'', user = Undefined, isDone = False\<rparr>] 1 = Ref 0
   \<and> todos_view [ArrayObj [], StateObj (Ref 0),
                 TodoObj \<lparr>title = str ''Buy milk'', user = Undefined, isDone = False\<rparr>] (Ref 0)
       = Some []
   \<and> todos_view [ArrayObj [Ref 2], StateObj (Ref 0),
                 TodoObj \<lparr>title = str ''Buy milk'', user = Undefined, isDone = False\<rparr>] (Ref 0)
       = Some [\<lparr>title = str ''Buy milk'', user = Undefined, isDone = False\<rparr>]"
  by (simp add: reducer_def state_todos_def todos_view_def array_at_def todo_at_def lookup_def)

text \<open>
  C8. For every store state and every action whose tag is none of \<open>ADD_TODO\<close>,
  \<open>REMOVE_TODO\<close>, \<open>CHANGE_TODOS\<close>, the reducer returns the state reference it was given and
  leaves the object store as it was: an unrecognized tag changes nothing.
\<close>

theorem reducer_unrecognized_tag_noop:
  assumes "atype act \<notin> {str ''ADD_TODO'', str ''REMOVE_TODO'', str ''CHANGE_TODOS''}"
  shows "reducer h (Some s) act = Inr (h, s)"
  using assms by (simp add: reducer_default)

theorem reducer_unrecognized_tag_noop_witness:
  "str ''TOGGLE'' \<notin> {str ''ADD_TODO'', str ''REMOVE_TODO'', str ''CHANGE_TODOS''}
   \<and> reducer [ArrayObj [], StateObj (Ref 0)] (Some 1) \<lparr>atype = str ''TOGGLE'', payload = Num 0\<rparr>
       = Inr ([ArrayObj [], StateObj (Ref 0)], 1)"
proof -
  have tag: "atype \<lparr>atype = str ''TOGGLE'', payload = Num 0\<rparr>
      \<notin> {str ''ADD_TODO'', str ''REMOVE_TODO'', str ''CHANGE_TODOS''}"
    by (simp add: str_def)
  from reducer_unrecognized_tag_noop [OF tag, of "[ArrayObj [], StateObj (Ref 0)]" 1] tag
  show ?thesis by simp
qed

text \<open>
  C9. The \<open>removeTodo\<close> dispatcher of MainApp sends the tag \<open>REMOVE_TODOS\<close>, which the
  reducer does not handle: for every store state and every index, dispatching through it
  returns the same state reference over an unchanged object store, so nothing is removed.
\<close>

theorem removeTodo_dispatcher_noop:
  "removeTodo (h, s) i = Inr (h, s)"
  by (simp add: removeTodo_def dispatch_def reducer_default tags_distinct)

text \<open>
  C10. Invoked with an undefined state and an action whose tag it does not handle (as the
  initialization actions of the store library are), the reducer returns a fresh state object
  whose \<open>todos\<close> is a fresh empty array; no existing object is changed.
\<close>

theorem reducer_initial_state:
  assumes "atype act \<notin> {str ''ADD_TODO'', str ''REMOVE_TODO'', str ''CHANGE_TODOS''}"
  shows "reducer h None act = Inr (h @ [ArrayObj [], StateObj (Ref (length h))], Suc (length h))"
  using assms by (simp add: reducer_def alloc_def)

theorem reducer_initial_state_witness:
  "str ''@@redux/INIT'' \<notin> {str ''ADD_TODO'', str ''REMOVE_TODO'', str ''CHANGE_TODOS''}
   \<and> reducer [] None \<lparr>atype = str ''@@redux/INIT'', payload = Undefined\<rparr>
       = Inr ([ArrayObj [], StateObj (Ref 0)], 1)
   \<and> todos_view [ArrayObj [], StateObj (Ref 0)] (state_todos [ArrayObj [], StateObj (Ref 0)] 1)
       = Some []"
proof -
  have tag: "atype \<lparr>atype = str ''@@redux/INIT'', payload = Undefined\<rparr>
      \<notin> {str ''ADD_TODO'', str ''REMOVE_TODO'', str ''CHANGE_TODOS''}"
    by (simp add: str_def)
  from reducer_initial_state [OF tag, of "[]"] tag
  show ?thesis by (simp add: todos_view_def state_todos_def array_at_def lookup_def)
qed

section \<open>Properties of the list view and the assignment widget\<close>

text \<open>
  What the two handlers do on a store whose list is a \<open>Todo[]\<close>: every element is copied
  into a new object, the copy at position \<open>idx\<close> is changed, the copies are collected in a
  new array, and the array is dispatched.
\<close>

lemma toggle_onChange_result:
  assumes "array_at h (state_todos h s) = Some (a, xs)" and "todos_of h xs = Some L"
  shows "toggle_onChange (h, s) idx =
    Some (Inr (h @ map TodoObj (map2 (\<lambda>index t. if int index = idx then t\<lparr>isDone := \<not> isDone t\<rparr> else t)
                                   [0..<length L] L)
                 @ [ArrayObj (map Ref [length h..<length h + length L]),
                    StateObj (Ref (length h + length L))],
               Suc (length h + length L)))"
  using assms array_map_copies [where f = "toggle_callback idx" and k = 0
      and g = "\<lambda>index t. if int index = idx then t\<lparr>isDone := \<not> isDone t\<rparr> else t", OF toggle_callback_copy assms(2)]
  by (simp add: toggle_onChange_def alloc_def changeTodo_def dispatch_def reducer_CHANGE_TODOS)

lemma UserSelect_handleChange_result:
  assumes "array_at h (state_todos h s) = Some (a, xs)" and "todos_of h xs = Some L"
  shows "UserSelect_handleChange (h, s) idx x =
    Some (Inr (h @ map TodoObj (map2 (\<lambda>index t. if int index = idx then t\<lparr>user := Str x\<rparr> else t)
                                   [0..<length L] L)
                 @ [ArrayObj (map Ref [length h..<length h + length L])],
               s))"
  using assms array_map_copies [where f = "assign_callback idx x" and k = 0
      and g = "\<lambda>index t. if int index = idx then t\<lparr>user := Str x\<rparr> else t", OF assign_callback_copy assms(2)]
  by (simp add: UserSelect_handleChange_def alloc_def dispatch_def reducer_default tags_distinct)

text \<open>
  C5. For every list \<open>L\<close> held by the store and every index in range, the checkbox handler
  commits a list equal to \<open>L\<close> except that the element at the index has \<open>isDone\<close>
  negated. Every object that existed before is unchanged (the old store is a prefix of the
  new one), so the previous list still reads as \<open>L\<close>, and the committed list is a new
  reference.
\<close>

theorem toggle_flips_isDone_at_index_only:
  assumes view: "todos_view h (state_todos h s) = Some L"
    and range: "0 \<le> idx" "idx < int (length L)"
  shows "\<exists>h' s'. toggle_onChange (h, s) idx = Some (Inr (h', s'))
      \<and> todos_view h' (state_todos h' s')
          = Some (L[nat idx := (L ! nat idx)\<lparr>isDone := \<not> isDone (L ! nat idx)\<rparr>])
      \<and> take (length h) h' = h
      \<and> todos_view h' (state_todos h s) = Some L
      \<and> state_todos h' s' \<noteq> state_todos h s"
proof -
  from view obtain a xs where st: "state_todos h s = Ref a" and a: "a < length h"
    and ar: "array_at h (state_todos h s) = Some (a, xs)" and xs: "todos_of h xs = Some L"
    by (rule view_cases)
  let ?L' = "map2 (\<lambda>index t. if int index = idx then t\<lparr>isDone := \<not> isDone t\<rparr> else t) [0..<length L] L"
  let ?n = "length h + length L"
  let ?h' = "h @ map TodoObj ?L' @ [ArrayObj (map Ref [length h..<?n]), StateObj (Ref ?n)]"
  have L': "?L' = L[nat idx := (L ! nat idx)\<lparr>isDone := \<not> isDone (L ! nat idx)\<rparr>]"
    using range by (simp add: map2_update_at)
  have len: "length ?L' = length L"
    by simp
  have run: "toggle_onChange (h, s) idx = Some (Inr (?h', Suc ?n))"
    by (rule toggle_onChange_result [OF ar xs])
  have new_st: "state_todos ?h' (Suc ?n) = Ref ?n"
    using state_todos_fresh [of "h @ map TodoObj ?L' @ [ArrayObj (map Ref [length h..<?n])]" "Ref ?n" "[]"]
    by simp
  have new_view: "todos_view ?h' (Ref ?n) = Some ?L'"
    using view_of_copies [of h ?L'] by (simp only: len)
  have old_view: "todos_view ?h' (state_todos h s) = Some L"
    by (rule todos_view_append [OF view])
  have "Ref ?n \<noteq> state_todos h s"
    using st a by simp
  with run new_st new_view old_view L' show ?thesis
    by (intro exI [of _ ?h'] exI [of _ "Suc ?n"]) simp
qed

theorem toggle_flips_isDone_at_index_only_witness:
  "todos_view [TodoObj \<lparr>title = str ''a'', user = Undefined, isDone = False\<rparr>,
               TodoObj \<lparr>title = str ''b'', user = Undefined, isDone = False\<rparr>,
               ArrayObj [Ref 0, Ref 1], StateObj (Ref 2)]
      (state_todos [TodoObj \<lparr>title = str ''a'', user = Undefined, isDone = False\<rparr>,
               TodoObj \<lparr>title = str ''b'', user = Undefined, isDone = False\<rparr>,
               ArrayObj [Ref 0, Ref 1], StateObj (Ref 2)] 3)
     = Some [\<lparr>title = str ''a'', user = Undefined, isDone = False\<rparr>,
             \<lparr>title = str ''b'', user = Undefined, isDone = False\<rparr>]
   \<and> (\<exists>h' s'. toggle_onChange
          ([TodoObj \<lparr>title = str ''a'', user = Undefined, isDone = False\<rparr>,
            TodoObj \<lparr>title = str ''b'', user = Undefined, isDone = False\<rparr>,
            ArrayObj [Ref 0, Ref 1], StateObj (Ref 2)], 3) 1 = Some (Inr (h', s'))
        \<and> todos_view h' (state_todos h' s')
            = Some [\<lparr>title = str ''a'', user = Undefined, isDone = False\<rparr>,
                    \<lparr>title = str ''b'', user = Undefined, isDone = True\<rparr>]
        \<and> todos_view h' (Ref 2)
            = Some [\<lparr>title = str ''a'', user = Undefined, isDone = False\<rparr>,
                    \<lparr>title = str ''b'', user = Undefined, isDone = False\<rparr>]
        \<and> state_todos h' s' \<noteq> Ref 2)"
proof -
  let ?a = "\<lparr>title = str ''a'', user = Undefined, isDone = False\<rparr>"
  let ?b = "\<lparr>title = str ''b'', user = Undefined, isDone = False\<rparr>"
  let ?h = "[TodoObj ?a, TodoObj ?b, ArrayObj [Ref 0, Ref 1], StateObj (Ref 2)]"
  have st: "state_todos ?h 3 = Ref 2"
    by (simp add: state_todos_def lookup_def)
  have view: "todos_view ?h (state_todos ?h 3) = Some [?a, ?b]"
    by (simp add: state_todos_def todos_view_def array_at_def todo_at_def lookup_def)
  have "(0::int) \<le> 1" and "(1::int) < int (length [?a, ?b])"
    by simp_all
  from toggle_flips_isDone_at_index_only [OF view this] view st
  show ?thesis by simp blast
qed

text \<open>
  C6. For every list \<open>L\<close> held by the store and every index out of range (negative, or at
  least the length), toggling, assigning and removing return normally and leave a list equal
  to \<open>L\<close>, without changing any existing object. Removing twice at one and the same index
  \<open>i\<close>, whatever it is, returns normally both times.
\<close>

theorem out_of_range_index_is_noop:
  assumes view: "todos_view h (state_todos h s) = Some L"
    and out: "idx < 0 \<or> int (length L) \<le> idx"
  shows "(\<exists>h' s'. toggle_onChange (h, s) idx = Some (Inr (h', s'))
            \<and> take (length h) h' = h \<and> todos_view h' (state_todos h' s') = Some L)
       \<and> (\<exists>h'. UserSelect_handleChange (h, s) idx x = Some (Inr (h', s))
            \<and> take (length h) h' = h \<and> todos_view h' (state_todos h' s) = Some L)
       \<and> (\<exists>h' s'. reducer h (Some s) \<lparr>atype = str ''REMOVE_TODO'', payload = Num idx\<rparr> = Inr (h', s')
            \<and> take (length h) h' = h \<and> todos_view h' (state_todos h' s') = Some L)
       \<and> (\<exists>h1 s1 h2 s2.
              reducer h (Some s) \<lparr>atype = str ''REMOVE_TODO'', payload = Num i\<rparr> = Inr (h1, s1)
            \<and> reducer h1 (Some s1) \<lparr>atype = str ''REMOVE_TODO'', payload = Num i\<rparr> = Inr (h2, s2)
            \<and> todos_view h2 (state_todos h2 s2)
                = Some (nths (nths L {index. int index \<noteq> i}) {index. int index \<noteq> i}))"
proof (intro conjI)
  from view obtain a xs where s: "s < length h"
    and ar: "array_at h (state_todos h s) = Some (a, xs)" and xs: "todos_of h xs = Some L"
    by (rule view_cases)
  let ?n = "length h + length L"
  let ?h' = "h @ map TodoObj L @ [ArrayObj (map Ref [length h..<?n]), StateObj (Ref ?n)]"
  have "toggle_onChange (h, s) idx = Some (Inr (?h', Suc ?n))"
    using toggle_onChange_result [OF ar xs, of idx] out by (simp add: map2_no_update)
  moreover have "state_todos ?h' (Suc ?n) = Ref ?n"
    using state_todos_fresh [of "h @ map TodoObj L @ [ArrayObj (map Ref [length h..<?n])]" "Ref ?n" "[]"]
    by simp
  moreover have "todos_view ?h' (Ref ?n) = Some L"
    by (rule view_of_copies)
  ultimately show "\<exists>h' s'. toggle_onChange (h, s) idx = Some (Inr (h', s'))
      \<and> take (length h) h' = h \<and> todos_view h' (state_todos h' s') = Some L"
    by (intro exI [of _ ?h'] exI [of _ "Suc ?n"]) simp
next
  from view obtain a xs where s: "s < length h"
    and ar: "array_at h (state_todos h s) = Some (a, xs)" and xs: "todos_of h xs = Some L"
    by (rule view_cases)
  let ?h' = "h @ map TodoObj L @ [ArrayObj (map Ref [length h..<length h + length L])]"
  have "UserSelect_handleChange (h, s) idx x = Some (Inr (?h', s))"
    using UserSelect_handleChange_result [OF ar xs, of idx x] out by (simp add: map2_no_update)
  moreover have "state_todos ?h' s = state_todos h s"
    using s by (intro state_todos_append [where ob = "h ! s"]) (simp add: lookup_def)
  moreover have "todos_view ?h' (state_todos h s) = Some L"
    by (rule todos_view_append [OF view])
  ultimately show "\<exists>h'. UserSelect_handleChange (h, s) idx x = Some (Inr (h', s))
      \<and> take (length h) h' = h \<and> todos_view h' (state_todos h' s) = Some L"
    by (intro exI [of _ ?h']) simp
next
  have "nths L {index. Num (int index) \<noteq> Num idx} = L"
    using out by (intro nths_all) auto
  with reducer_REMOVE_TODO_view [OF view, of "Num idx"]
  show "\<exists>h' s'. reducer h (Some s) \<lparr>atype = str ''REMOVE_TODO'', payload = Num idx\<rparr> = Inr (h', s')
      \<and> take (length h) h' = h \<and> todos_view h' (state_todos h' s') = Some L"
    by simp
next
  from reducer_REMOVE_TODO_twice [OF view, of "Num i"]
  show "\<exists>h1 s1 h2 s2.
        reducer h (Some s) \<lparr>atype = str ''REMOVE_TODO'', payload = Num i\<rparr> = Inr (h1, s1)
      \<and> reducer h1 (Some s1) \<lparr>atype = str ''REMOVE_TODO'', payload = Num i\<rparr> = Inr (h2, s2)
      \<and> todos_view h2 (state_todos h2 s2)
          = Some (nths (nths L {index. int index \<noteq> i}) {index. int index \<noteq> i})"
    by simp
qed


theorem out_of_range_index_is_noop_witness:
  "todos_view [TodoObj \<lparr>title = str ''a'', user = Undefined, isDone = False\<rparr>,
               ArrayObj [Ref 0], StateObj (Ref 1)]
      (state_todos [TodoObj \<lparr>title = str ''a'', user = Undefined, isDone = False\<rparr>,
               ArrayObj [Ref 0], StateObj (Ref 1)] 2)
     = Some [\<lparr>title = str ''a'', user = Undefined, isDone = False\<rparr>]
   \<and> ((1::int) < 0 \<or> int (length [\<lparr>title = str ''a'', user = Undefined, isDone = False\<rparr>]) \<le> 1)
   \<and> (\<exists>h' s'. toggle_onChange
          ([TodoObj \<lparr>title = str ''a'', user = Undefined, isDone = False\<rparr>,
            ArrayObj [Ref 0], StateObj (Ref 1)], 2) 1 = Some (Inr (h', s'))
        \<and> todos_view h' (state_todos h' s')
            = Some [\<lparr>title = str ''a'', user = Undefined, isDone = False\<rparr>])
   \<and> (\<exists>h'. UserSelect_handleChange
          ([TodoObj \<lparr>title = str ''a'', user = Undefined, isDone = False\<rparr>,
            ArrayObj [Ref 0], StateObj (Ref 1)], 2) 1 (str ''3'') = Some (Inr (h', 2))
        \<and> todos_view h' (state_todos h' 2)
            = Some [\<lparr>title = str ''a'', user = Undefined, isDone = False\<rparr>])
   \<and> (\<exists>h' s'. reducer
          [TodoObj \<lparr>title = str ''a'', user = Undefined, isDone = False\<rparr>,
           ArrayObj [Ref 0], StateObj (Ref 1)] (Some 2)
          \<lparr>atype = str ''REMOVE_TODO'', payload = Num 1\<rparr> = Inr (h', s')
        \<and> todos_view h' (state_todos h' s')
            = Some [\<lparr>title = str ''a'', user = Undefined, isDone = False\<rparr>])
   \<and> (\<exists>h1 s1 h2 s2. reducer
          [TodoObj \<lparr>title = str ''a'', user = Undefined, isDone = False\<rparr>,
           ArrayObj [Ref 0], StateObj (Ref 1)] (Some 2)
          \<lparr>atype = str ''REMOVE_TODO'', payload = Num 0\<rparr> = Inr (h1, s1)
        \<and> reducer h1 (Some s1) \<lparr>atype = str ''REMOVE_TODO'', payload = Num 0\<rparr> = Inr (h2, s2))"
proof -
  let ?a = "\<lparr>title = str ''a'', user = Undefined, isDone = False\<rparr>"
  let ?h = "[TodoObj ?a, ArrayObj [Ref 0], StateObj (Ref 1)]"
  have view: "todos_view ?h (state_todos ?h 2) = Some [?a]"
    by (simp add: state_todos_def todos_view_def array_at_def todo_at_def lookup_def)
  have out: "(1::int) < 0 \<or> int (length [?a]) \<le> 1"
    by simp
  from out_of_range_index_is_noop [OF view out, of "str ''3''" 0] view out
  show ?thesis by blast
qed

text \<open>
  C4. Selecting a user for position \<open>i\<close> should commit a list in which the Todo at \<open>i\<close>
  has \<open>user\<close> set to the numeric identifier. Evaluated on a one-element list with the option
  value \<open>"3"\<close> selected at position 0: the handler dispatches the tag \<open>CHANGE_TODO\<close>, which
  the reducer does not handle, so the same state reference is returned and the committed list
  still has no user; and the copy carried by the action holds the string \<open>"3"\<close>, not the
  number 3.
\<close>

theorem assign_is_dropped_and_untyped:
  "UserSelect_handleChange
     ([TodoObj \<lparr>title = str ''a'', user = Undefined, isDone = False\<rparr>,
       ArrayObj [Ref 0], StateObj (Ref 1)], 2) 0 (str ''3'')
     = Some (Inr ([TodoObj \<lparr>title = str ''a'', user = Undefined, isDone = False\<rparr>,
                   ArrayObj [Ref 0], StateObj (Ref 1),
                   TodoObj \<lparr>title = str ''a'', user = Str (str ''3''), isDone = False\<rparr>,
                   ArrayObj [Ref 3]], 2))
   \<and> todos_view [TodoObj \<lparr>title = str ''a'', user = Undefined, isDone = False\<rparr>,
                 ArrayObj [Ref 0], StateObj (Ref 1),
                 TodoObj \<lparr>title = str ''a'', user = Str (str ''3''), isDone = False\<rparr>,
                 ArrayObj [Ref 3]]
        (state_todos [TodoObj \<lparr>title = str ''a'', user = Undefined, isDone = False\<rparr>,
                 ArrayObj [Ref 0], StateObj (Ref 1),
                 TodoObj \<lparr>title = str ''a'', user = Str (str ''3''), isDone = False\<rparr>,
                 ArrayObj [Ref 3]] 2)
       = Some [\<lparr>title = str ''a'', user = Undefined, isDone = False\<rparr>]
   \<and> Str (str ''3'') \<noteq> Num 3"
proof -
  let ?a = "\<lparr>title = str ''a'', user = Undefined, isDone = False\<rparr>"
  let ?h = "[TodoObj ?a, ArrayObj [Ref 0], StateObj (Ref 1)]"
  have ar: "array_at ?h (state_todos ?h 2) = Some (1, [Ref 0])"
    by (simp add: state_todos_def array_at_def lookup_def)
  have xs: "todos_of ?h [Ref 0] = Some [?a]"
    by (simp add: todo_at_def lookup_def)
  have run: "UserSelect_handleChange (?h, 2) 0 (str ''3'')
     = Some (Inr (?h @ [TodoObj (?a\<lparr>user := Str (str ''3'')\<rparr>), ArrayObj [Ref 3]], 2))"
    using UserSelect_handleChange_result [OF ar xs, of 0 "str ''3''"] by simp
  have v: "todos_view (?h @ [TodoObj (?a\<lparr>user := Str (str ''3'')\<rparr>), ArrayObj [Ref 3]])
        (state_todos (?h @ [TodoObj (?a\<lparr>user := Str (str ''3'')\<rparr>), ArrayObj [Ref 3]]) 2)
       = Some [?a]"
    by (simp add: state_todos_def todos_view_def array_at_def todo_at_def lookup_def)
  from run v show ?thesis by simp
qed

text \<open>
  The flag is the \<open>isDone\<close> of the last element, and \<open>true\<close> on the empty list.
\<close>

lemma allTodosIsDone_last: "allTodosIsDone ts \<longleftrightarrow> ts = [] \<or> isDone (last ts)"
proof -
  have "fold (\<lambda>t flag. if \<not> isDone t then False else True) ts b \<longleftrightarrow> (if ts = [] then b else isDone (last ts))" for b
    by (induction ts arbitrary: b) auto
  then show ?thesis by (simp add: allTodosIsDone_def)
qed

text \<open>
  C2. The flag should be \<open>length(list) > 0\<close> and every element done. Evaluated on the empty
  list and on \<open>[{isDone: false}, {isDone: true}]\<close>, the computation in \<open>render\<close> yields
  \<open>true\<close> for both.
\<close>

theorem allTodosIsDone_last_element_wins:
  "allTodosIsDone [] = True
   \<and> allTodosIsDone [\<lparr>title = str ''a'', user = Undefined, isDone = False\<rparr>,
                     \<lparr>title = str ''b'', user = Undefined, isDone = True\<rparr>] = True"
  by (simp add: allTodosIsDone_def)

section \<open>Properties of the input widget\<close>

lemma synced_mounted: "synced mounted"
  by (simp add: synced_def mounted_def)

lemma synced_handleTodoTitle: "synced c \<Longrightarrow> synced (handleTodoTitle c x)"
  by (auto simp: synced_def handleTodoTitle_def componentDidUpdate_def split: option.splits)

lemma synced_handleChange: "synced c \<Longrightarrow> synced (InputNewTodo_handleChange c x)"
  by (simp add: InputNewTodo_handleChange_def synced_handleTodoTitle)

lemma synced_handleKeyDown: "synced c \<Longrightarrow> synced (component (handleKeyDown c k))"
  by (auto simp: handleKeyDown_def synced_handleTodoTitle Let_def split: option.splits)

text \<open>
  C7. Pressing Enter while the text shown trims to the empty string passes nothing to
  \<open>onSubmit\<close> and leaves the component, hence the draft, exactly as it was. (Right after
  mounting the handler leaves by a \<open>TypeError\<close>; nothing has been emitted or changed then
  either.)
\<close>

theorem confirm_blank_draft_emits_nothing:
  assumes "synced c" and "trim (props_todoTitle c) = []"
  shows "submitted (handleKeyDown c 13) = [] \<and> component (handleKeyDown c 13) = c"
proof (cases "state_value c")
  case None
  then show ?thesis by (simp add: handleKeyDown_def)
next
  case (Some v)
  with assms have "trim v = []" by (simp add: synced_def)
  with Some show ?thesis by (simp add: handleKeyDown_def)
qed

theorem confirm_blank_draft_emits_nothing_witness:
  "synced (InputNewTodo_handleChange mounted (str ''   ''))
   \<and> trim (props_todoTitle (InputNewTodo_handleChange mounted (str ''   ''))) = []
   \<and> submitted (handleKeyDown (InputNewTodo_handleChange mounted (str ''   '')) 13) = []
   \<and> component (handleKeyDown (InputNewTodo_handleChange mounted (str ''   '')) 13)
       = \<lparr>props_todoTitle = str ''   '', state_value = Some (str ''   '')\<rparr>"
proof -
  have c: "InputNewTodo_handleChange mounted (str ''   '')
      = \<lparr>props_todoTitle = str ''   '', state_value = Some (str ''   '')\<rparr>"
    by (simp add: InputNewTodo_handleChange_def handleTodoTitle_def componentDidUpdate_def
        mounted_def str_def)
  have s: "synced (InputNewTodo_handleChange mounted (str ''   ''))"
    by (simp add: c synced_def)
  have t: "trim (props_todoTitle (InputNewTodo_handleChange mounted (str ''   ''))) = []"
    unfolding c by (simp add: trim_def str_def isWhiteSpace_def)
  from confirm_blank_draft_emits_nothing [OF s t] s t c
  show ?thesis by simp
qed

text \<open>
  Right after mounting \<open>this.state\<close> is \<open>null\<close>, and Enter leaves the handler by a
  \<open>TypeError\<close>.
\<close>

lemma handleKeyDown_before_typing:
  "handleKeyDown mounted 13 = \<lparr>thrown = Some TypeError, submitted = [], component = mounted\<rparr>"
  by (simp add: handleKeyDown_def mounted_def)

text \<open>
  Pressing Enter on a draft that does not trim to the empty string passes exactly one object
  to \<open>onSubmit\<close>, with \<open>isDone\<close> false and the draft as it is for title, and clears the
  draft.
\<close>

lemma confirm_nonblank_draft:
  assumes "synced c" and "trim (props_todoTitle c) \<noteq> []"
  shows "handleKeyDown c 13
    = \<lparr>thrown = None,
       submitted = [\<lparr>title = props_todoTitle c, user = Undefined, isDone = False\<rparr>],
       component = \<lparr>props_todoTitle = [], state_value = Some []\<rparr>\<rparr>"
proof (cases "state_value c")
  case None
  with assms show ?thesis by (simp add: synced_def trim_def)
next
  case (Some v)
  with assms have v: "v = props_todoTitle c" and "props_todoTitle c \<noteq> []"
    by (auto simp: synced_def trim_def)
  with Some assms(2) show ?thesis
    by (simp add: handleKeyDown_def handleTodoTitle_def componentDidUpdate_def)
qed

text \<open>
  C3. Confirming a draft whose trimmed form is not empty should emit a Todo with the trimmed
  title. Evaluated on the draft \<open>"  Buy milk  "\<close>, typed into the mounted component and
  confirmed with Enter: the one object passed to \<open>onSubmit\<close> has the title
  \<open>"  Buy milk  "\<close>, which is not its trimmed form \<open>"Buy milk"\<close>, and that is the title
  stored in the list by \<open>handleSubmitTodo\<close>.
\<close>

theorem confirm_submits_untrimmed_title:
  "submitted (handleKeyDown (InputNewTodo_handleChange mounted (str ''  Buy milk  '')) 13)
     = [\<lparr>title = str ''  Buy milk  '', user = Undefined, isDone = False\<rparr>]
   \<and> trim (str ''  Buy milk  '') = str ''Buy milk''
   \<and> str ''  Buy milk  '' \<noteq> str ''Buy milk''
   \<and> handleSubmitTodo ([ArrayObj [], StateObj (Ref 0)], 1)
         \<lparr>title = str ''  Buy milk  '', user = Undefined, isDone = False\<rparr>
       = Inr ([ArrayObj [Ref 2], StateObj (Ref 0),
               TodoObj \<lparr>title = str ''  Buy milk  '', user = Undefined, isDone = False\<rparr>], 1)
   \<and> todos_view [ArrayObj [Ref 2], StateObj (Ref 0),
                 TodoObj \<lparr>title = str ''  Buy milk  '', user = Undefined, isDone = False\<rparr>]
         (state_todos [ArrayObj [Ref 2], StateObj (Ref 0),
                 TodoObj \<lparr>title = str ''  Buy milk  '', user = Undefined, isDone = False\<rparr>] 1)
       = Some [\<lparr>title = str ''  Buy milk  '', user = Undefined, isDone = False\<rparr>]"
proof -
  have c: "InputNewTodo_handleChange mounted (str ''  Buy milk  '')
      = \<lparr>props_todoTitle = str ''  Buy milk  '', state_value = Some (str ''  Buy milk  '')\<rparr>"
    by (simp add: InputNewTodo_handleChange_def handleTodoTitle_def componentDidUpdate_def
        mounted_def str_def)
  have t: "trim (str ''  Buy milk  '') = str ''Buy milk''"
    by (simp add: trim_def str_def isWhiteSpace_def)
  have n: "str ''Buy milk'' \<noteq> []" "str ''  Buy milk  '' \<noteq> str ''Buy milk''"
    by (simp_all add: str_def)
  have k: "submitted (handleKeyDown (InputNewTodo_handleChange mounted (str ''  Buy milk  '')) 13)
     = [\<lparr>title = str ''  Buy milk  '', user = Undefined, isDone = False\<rparr>]"
    unfolding c by (simp add: handleKeyDown_def t n)
  have s: "handleSubmitTodo ([ArrayObj [], StateObj (Ref 0)], 1)
         \<lparr>title = str ''  Buy milk  '', user = Undefined, isDone = False\<rparr>
       = Inr ([ArrayObj [Ref 2], StateObj (Ref 0),
               TodoObj \<lparr>title = str ''  Buy milk  '', user = Undefined, isDone = False\<rparr>], 1)"
    by (simp add: handleSubmitTodo_def addTodo_def dispatch_def alloc_def reducer_def
        state_todos_def array_at_def lookup_def)
  have v: "todos_view [ArrayObj [Ref 2], StateObj (Ref 0),
                 TodoObj \<lparr>title = str ''  Buy milk  '', user = Undefined, isDone = False\<rparr>]
         (state_todos [ArrayObj [Ref 2], StateObj (Ref 0),
                 TodoObj \<lparr>title = str ''  Buy milk  '', user = Undefined, isDone = False\<rparr>] 1)
       = Some [\<lparr>title = str ''  Buy milk  '', user = Undefined, isDone = False\<rparr>]"
    by (simp add: state_todos_def todos_view_def array_at_def todo_at_def lookup_def)
  from k t n(2) s v show ?thesis by blast
qed

end
